theory Spec2Isabelle
  imports Main "HOL-Library.AList"
begin

section \<open>The data model of \<open>app.py\<close>\<close>

text \<open>
  The two SQLModel tables. \<open>id\<close> is the integer primary key that SQLite assigns on
  insert (the row id); \<open>max_participants\<close> is a Python \<open>int\<close>.
\<close>

record Activity =
  activity_id :: nat
  name :: string
  description :: string
  schedule :: string
  max_participants :: int

record Participant =
  participant_id :: nat
  email :: string
  activity_name :: string

text \<open>
  The database is the two tables, each a list of rows in row-id order, which is the order
  in which a \<open>select\<close> without \<open>ORDER BY\<close> scans them.
\<close>

record database =
  activity_table :: "Activity list"
  participant_table :: "Participant list"

definition empty_db :: database where
  "empty_db = \<lparr>activity_table = [], participant_table = []\<rparr>"

text \<open>
  What the routes raise, and what the store raises when the unique index on
  \<open>Activity.name\<close> is violated.
\<close>

datatype error = HTTPException nat string | IntegrityError

text \<open>The JSON values the routes return; a Python \<open>dict\<close> keeps insertion order.\<close>

datatype json = JStr string | JInt int | JList "json list" | JObj "(string \<times> json) list"

section \<open>The store\<close>

text \<open>A fresh row id is one more than the largest in use, and 1 in an empty table.\<close>

definition next_rowid :: "nat list \<Rightarrow> nat" where
  "next_rowid ids = Suc (fold max ids 0)"

text \<open>\<open>session.add(Activity(...))\<close> followed by \<open>flush\<close>: the name must be new.\<close>

definition session_add_activity ::
  "string \<Rightarrow> string \<Rightarrow> string \<Rightarrow> int \<Rightarrow> database \<Rightarrow> error + database" where
  "session_add_activity n d s m db =
     (if n \<in> set (map name (activity_table db)) then Inl IntegrityError
      else Inr (db\<lparr>activity_table := activity_table db @
             [\<lparr>activity_id = next_rowid (map activity_id (activity_table db)),
               name = n, description = d, schedule = s, max_participants = m\<rparr>]\<rparr>))"

text \<open>\<open>session.add(Participant(email=..., activity_name=...))\<close>.\<close>

definition session_add_participant :: "string \<Rightarrow> string \<Rightarrow> database \<Rightarrow> database" where
  "session_add_participant mail aname db =
     db\<lparr>participant_table := participant_table db @
          [\<lparr>participant_id = next_rowid (map participant_id (participant_table db)),
            email = mail, activity_name = aname\<rparr>]\<rparr>"

text \<open>\<open>session.delete(participant)\<close>: the row with that primary key goes.\<close>

definition session_delete :: "Participant \<Rightarrow> database \<Rightarrow> database" where
  "session_delete participant db =
     db\<lparr>participant_table :=
          filter (\<lambda>p. participant_id p \<noteq> participant_id participant) (participant_table db)\<rparr>"

text \<open>\<open>select(Participant).where(Participant.activity_name == aname)\<close>, \<open>.all()\<close>.\<close>

definition participants_of :: "string \<Rightarrow> database \<Rightarrow> Participant list" where
  "participants_of aname db = filter (\<lambda>p. activity_name p = aname) (participant_table db)"

section \<open>Seeding\<close>

record seed_data =
  seed_name :: string
  seed_description :: string
  seed_schedule :: string
  seed_max_participants :: int
  seed_participants :: "string list"

definition SEED_ACTIVITIES :: "seed_data list" where
  "SEED_ACTIVITIES =
    [\<lparr>seed_name = ''Chess Club'',
      seed_description = ''Learn strategies and compete in chess tournaments'',
      seed_schedule = ''Fridays, 3:30 PM - 5:00 PM'', seed_max_participants = 12,
      seed_participants = [''michael@mergington.edu'', ''daniel@mergington.edu'']\<rparr>,
     \<lparr>seed_name = ''Programming Class'',
      seed_description = ''Learn programming fundamentals and build software projects'',
      seed_schedule = ''Tuesdays and Thursdays, 3:30 PM - 4:30 PM'', seed_max_participants = 20,
      seed_participants = [''emma@mergington.edu'', ''sophia@mergington.edu'']\<rparr>,
     \<lparr>seed_name = ''Gym Class'',
      seed_description = ''Physical education and sports activities'',
      seed_schedule = ''Mondays, Wednesdays, Fridays, 2:00 PM - 3:00 PM'',
      seed_max_participants = 30,
      seed_participants = [''john@mergington.edu'', ''olivia@mergington.edu'']\<rparr>,
     \<lparr>seed_name = ''Soccer Team'',
      seed_description = ''Join the school soccer team and compete in matches'',
      seed_schedule = ''Tuesdays and Thursdays, 4:00 PM - 5:30 PM'', seed_max_participants = 22,
      seed_participants = [''liam@mergington.edu'', ''noah@mergington.edu'']\<rparr>,
     \<lparr>seed_name = ''Basketball Team'',
      seed_description = ''Practice and play basketball with the school team'',
      seed_schedule = ''Wednesdays and Fridays, 3:30 PM - 5:00 PM'', seed_max_participants = 15,
      seed_participants = [''ava@mergington.edu'', ''mia@mergington.edu'']\<rparr>,
     \<lparr>seed_name = ''Art Club'',
      seed_description = ''Explore your creativity through painting and drawing'',
      seed_schedule = ''Thursdays, 3:30 PM - 5:00 PM'', seed_max_participants = 15,
      seed_participants = [''amelia@mergington.edu'', ''harper@mergington.edu'']\<rparr>,
     \<lparr>seed_name = ''Drama Club'',
      seed_description = ''Act, direct, and produce plays and performances'',
      seed_schedule = ''Mondays and Wednesdays, 4:00 PM - 5:30 PM'', seed_max_participants = 20,
      seed_participants = [''ella@mergington.edu'', ''scarlett@mergington.edu'']\<rparr>,
     \<lparr>seed_name = ''Math Club'',
      seed_description = ''Solve challenging problems and participate in math competitions'',
      seed_schedule = ''Tuesdays, 3:30 PM - 4:30 PM'', seed_max_participants = 10,
      seed_participants = [''james@mergington.edu'', ''benjamin@mergington.edu'']\<rparr>,
     \<lparr>seed_name = ''Debate Team'',
      seed_description = ''Develop public speaking and argumentation skills'',
      seed_schedule = ''Fridays, 4:00 PM - 5:30 PM'', seed_max_participants = 12,
      seed_participants = [''charlotte@mergington.edu'', ''henry@mergington.edu'']\<rparr>]"

text \<open>
  The body of the loop \<open>for data in SEED_ACTIVITIES\<close>: the activity is added and flushed,
  then one participant row per seeded email. An exception leaves the loop.
\<close>

fun seed_loop :: "seed_data list \<Rightarrow> database \<Rightarrow> error + database" where
  "seed_loop [] db = Inr db"
| "seed_loop (data # rest) db =
     (case session_add_activity (seed_name data) (seed_description data) (seed_schedule data)
             (seed_max_participants data) db of
        Inl e \<Rightarrow> Inl e
      | Inr db1 \<Rightarrow>
          seed_loop rest
            (fold (\<lambda>mail. session_add_participant mail (seed_name data))
               (seed_participants data) db1))"

text \<open>
  \<open>seed_database\<close>: nothing happens when the activity table has a first row; otherwise the
  loop runs in one session and is committed at its end. The second component is the
  database after the call: a session left by an exception commits nothing.
\<close>

definition seed_database :: "database \<Rightarrow> (error + unit) \<times> database" where
  "seed_database db =
     (case activity_table db of
        existing # _ \<Rightarrow> (Inr (), db)
      | [] \<Rightarrow>
          (case seed_loop SEED_ACTIVITIES db of
             Inl e \<Rightarrow> (Inl e, db)
           | Inr db' \<Rightarrow> (Inr (), db')))"

section \<open>The routes\<close>

definition activity_to_dict :: "Activity \<Rightarrow> string list \<Rightarrow> json" where
  "activity_to_dict activity participants =
     JObj [(''description'', JStr (description activity)),
           (''schedule'', JStr (schedule activity)),
           (''max_participants'', JInt (max_participants activity)),
           (''participants'', JList (map JStr participants))]"

text \<open>\<open>GET /activities\<close>: \<open>result[activity.name] = ...\<close> for every row of the table.\<close>

definition get_activities :: "database \<Rightarrow> (string \<times> json) list" where
  "get_activities db =
     fold (\<lambda>activity result.
             AList.update (name activity)
               (activity_to_dict activity (map email (participants_of (name activity) db)))
               result)
       (activity_table db) []"

text \<open>
  \<open>POST /activities/{activity_name}/signup\<close>. The result is the response or the exception
  raised, with the database after the call; \<open>raise\<close> leaves the session uncommitted.
\<close>

definition signup_for_activity ::
  "string \<Rightarrow> string \<Rightarrow> database \<Rightarrow> (error + json) \<times> database" where
  "signup_for_activity aname mail db =
     (case find (\<lambda>a. name a = aname) (activity_table db) of
        None \<Rightarrow> (Inl (HTTPException 404 ''Activity not found''), db)
      | Some activity \<Rightarrow>
          (case find (\<lambda>p. activity_name p = aname \<and> email p = mail) (participant_table db) of
             Some existing \<Rightarrow> (Inl (HTTPException 400 ''Student is already signed up''), db)
           | None \<Rightarrow>
               (let participant_count = length (participants_of aname db) in
                if int participant_count \<ge> max_participants activity
                then (Inl (HTTPException 400 ''Activity is full''), db)
                else (Inr (JObj [(''message'',
                             JStr (''Signed up '' @ mail @ '' for '' @ aname))]),
                      session_add_participant mail aname db))))"

text \<open>\<open>DELETE /activities/{activity_name}/unregister\<close>.\<close>

definition unregister_from_activity ::
  "string \<Rightarrow> string \<Rightarrow> database \<Rightarrow> (error + json) \<times> database" where
  "unregister_from_activity aname mail db =
     (case find (\<lambda>a. name a = aname) (activity_table db) of
        None \<Rightarrow> (Inl (HTTPException 404 ''Activity not found''), db)
      | Some activity \<Rightarrow>
          (case find (\<lambda>p. activity_name p = aname \<and> email p = mail) (participant_table db) of
             None \<Rightarrow>
               (Inl (HTTPException 400 ''Student is not signed up for this activity''), db)
           | Some participant \<Rightarrow>
               (Inr (JObj [(''message'',
                       JStr (''Unregistered '' @ mail @ '' from '' @ aname))]),
                session_delete participant db)))"

section \<open>Runs of the service\<close>

text \<open>
  The operations that change the store, and the state after a sequence of them, run one
  after the other from the empty store.
\<close>

datatype operation = Seed | Signup string string | Unregister string string

fun step :: "database \<Rightarrow> operation \<Rightarrow> database" where
  "step db Seed = snd (seed_database db)"
| "step db (Signup aname mail) = snd (signup_for_activity aname mail db)"
| "step db (Unregister aname mail) = snd (unregister_from_activity aname mail db)"

definition run :: "operation list \<Rightarrow> database" where
  "run ops = foldl step empty_db ops"

text \<open>
  The operations that cannot store an empty email: every operation but a signup whose
  email argument is the empty string.
\<close>

fun nonempty_signup_email :: "operation \<Rightarrow> bool" where
  "nonempty_signup_email (Signup aname mail) = (mail \<noteq> [])"
| "nonempty_signup_email Seed = True"
| "nonempty_signup_email (Unregister aname mail) = True"

section \<open>The invariant of the store\<close>

text \<open>
  What every state of a run satisfies: activity names are unique, participant rows are in
  ascending row-id order, every participant row names an activity of the table, no two
  rows enrol the same email in the same activity, and no activity is over its capacity.
\<close>

definition store_inv :: "database \<Rightarrow> bool" where
  "store_inv db \<longleftrightarrow>
     distinct (map name (activity_table db)) \<and>
     sorted_wrt (<) (map participant_id (participant_table db)) \<and>
     (\<forall>p\<in>set (participant_table db). activity_name p \<in> set (map name (activity_table db))) \<and>
     distinct (map (\<lambda>p. (activity_name p, email p)) (participant_table db)) \<and>
     (\<forall>a\<in>set (activity_table db). int (length (participants_of (name a) db)) \<le> max_participants a)"

section \<open>Facts about the store\<close>

lemma fold_max_ge: "a \<le> fold max ids (a::nat)"
  by (induction ids arbitrary: a) (auto intro: order_trans[OF max.cobounded2])

lemma fold_max_mem: "x \<in> set ids \<Longrightarrow> x \<le> fold max ids (a::nat)"
proof (induction ids arbitrary: a)
  case Nil
  then show ?case by simp
next
  case (Cons i ids)
  show ?case
  proof (cases "x = i")
    case True
    have "i \<le> max i a" by simp
    also have "\<dots> \<le> fold max ids (max i a)" by (rule fold_max_ge)
    finally show ?thesis using True by simp
  next
    case False
    with Cons.prems have "x \<in> set ids" by simp
    then show ?thesis using Cons.IH by simp
  qed
qed

lemma next_rowid_fresh: "x \<in> set ids \<Longrightarrow> x < next_rowid ids"
  unfolding next_rowid_def using fold_max_mem[of x ids 0] by simp

lemma find_SomeD: "find P xs = Some x \<Longrightarrow> x \<in> set xs \<and> P x"
  by (induction xs) (auto split: if_splits)

lemma seeded_activity_table:
  "activity_table (snd (seed_database empty_db)) =
    [\<lparr>activity_id = 1, name = ''Chess Club'',
      description = ''Learn strategies and compete in chess tournaments'',
      schedule = ''Fridays, 3:30 PM - 5:00 PM'', max_participants = 12\<rparr>,
     \<lparr>activity_id = 2, name = ''Programming Class'',
      description = ''Learn programming fundamentals and build software projects'',
      schedule = ''Tuesdays and Thursdays, 3:30 PM - 4:30 PM'', max_participants = 20\<rparr>,
     \<lparr>activity_id = 3, name = ''Gym Class'',
      description = ''Physical education and sports activities'',
      schedule = ''Mondays, Wednesdays, Fridays, 2:00 PM - 3:00 PM'', max_participants = 30\<rparr>,
     \<lparr>activity_id = 4, name = ''Soccer Team'',
      description = ''Join the school soccer team and compete in matches'',
      schedule = ''Tuesdays and Thursdays, 4:00 PM - 5:30 PM'', max_participants = 22\<rparr>,
     \<lparr>activity_id = 5, name = ''Basketball Team'',
      description = ''Practice and play basketball with the school team'',
      schedule = ''Wednesdays and Fridays, 3:30 PM - 5:00 PM'', max_participants = 15\<rparr>,
     \<lparr>activity_id = 6, name = ''Art Club'',
      description = ''Explore your creativity through painting and drawing'',
      schedule = ''Thursdays, 3:30 PM - 5:00 PM'', max_participants = 15\<rparr>,
     \<lparr>activity_id = 7, name = ''Drama Club'',
      description = ''Act, direct, and produce plays and performances'',
      schedule = ''Mondays and Wednesdays, 4:00 PM - 5:30 PM'', max_participants = 20\<rparr>,
     \<lparr>activity_id = 8, name = ''Math Club'',
      description = ''Solve challenging problems and participate in math competitions'',
      schedule = ''Tuesdays, 3:30 PM - 4:30 PM'', max_participants = 10\<rparr>,
     \<lparr>activity_id = 9, name = ''Debate Team'',
      description = ''Develop public speaking and argumentation skills'',
      schedule = ''Fridays, 4:00 PM - 5:30 PM'', max_participants = 12\<rparr>]"
  by (simp add: seed_database_def empty_db_def SEED_ACTIVITIES_def session_add_activity_def
      session_add_participant_def next_rowid_def)

lemma seeded_participant_table:
  "participant_table (snd (seed_database empty_db)) =
    [\<lparr>participant_id = 1, email = ''michael@mergington.edu'', activity_name = ''Chess Club''\<rparr>,
     \<lparr>participant_id = 2, email = ''daniel@mergington.edu'', activity_name = ''Chess Club''\<rparr>,
     \<lparr>participant_id = 3, email = ''emma@mergington.edu'',
      activity_name = ''Programming Class''\<rparr>,
     \<lparr>participant_id = 4, email = ''sophia@mergington.edu'',
      activity_name = ''Programming Class''\<rparr>,
     \<lparr>participant_id = 5, email = ''john@mergington.edu'', activity_name = ''Gym Class''\<rparr>,
     \<lparr>participant_id = 6, email = ''olivia@mergington.edu'', activity_name = ''Gym Class''\<rparr>,
     \<lparr>participant_id = 7, email = ''liam@mergington.edu'', activity_name = ''Soccer Team''\<rparr>,
     \<lparr>participant_id = 8, email = ''noah@mergington.edu'', activity_name = ''Soccer Team''\<rparr>,
     \<lparr>participant_id = 9, email = ''ava@mergington.edu'',
      activity_name = ''Basketball Team''\<rparr>,
     \<lparr>participant_id = 10, email = ''mia@mergington.edu'',
      activity_name = ''Basketball Team''\<rparr>,
     \<lparr>participant_id = 11, email = ''amelia@mergington.edu'', activity_name = ''Art Club''\<rparr>,
     \<lparr>participant_id = 12, email = ''harper@mergington.edu'', activity_name = ''Art Club''\<rparr>,
     \<lparr>participant_id = 13, email = ''ella@mergington.edu'', activity_name = ''Drama Club''\<rparr>,
     \<lparr>participant_id = 14, email = ''scarlett@mergington.edu'',
      activity_name = ''Drama Club''\<rparr>,
     \<lparr>participant_id = 15, email = ''james@mergington.edu'', activity_name = ''Math Club''\<rparr>,
     \<lparr>participant_id = 16, email = ''benjamin@mergington.edu'',
      activity_name = ''Math Club''\<rparr>,
     \<lparr>participant_id = 17, email = ''charlotte@mergington.edu'',
      activity_name = ''Debate Team''\<rparr>,
     \<lparr>participant_id = 18, email = ''henry@mergington.edu'',
      activity_name = ''Debate Team''\<rparr>]"
  by (simp add: seed_database_def empty_db_def SEED_ACTIVITIES_def session_add_activity_def
      session_add_participant_def next_rowid_def)

lemma seeded_store_inv: "store_inv (snd (seed_database empty_db))"
  unfolding store_inv_def participants_of_def seeded_activity_table seeded_participant_table
  by simp

lemma signup_activity_table:
  "activity_table (snd (signup_for_activity aname mail db)) = activity_table db"
  by (simp add: signup_for_activity_def session_add_participant_def Let_def
      split: option.splits)

lemma unregister_activity_table:
  "activity_table (snd (unregister_from_activity aname mail db)) = activity_table db"
  by (simp add: unregister_from_activity_def session_delete_def split: option.splits)

lemma signup_result:
  "snd (signup_for_activity aname mail db) = db \<or>
   (\<exists>activity. activity \<in> set (activity_table db) \<and> name activity = aname \<and>
      find (\<lambda>a. name a = aname) (activity_table db) = Some activity \<and>
      (\<forall>p\<in>set (participant_table db). \<not> (activity_name p = aname \<and> email p = mail)) \<and>
      int (length (participants_of aname db)) < max_participants activity \<and>
      snd (signup_for_activity aname mail db) = session_add_participant mail aname db)"
proof (cases "find (\<lambda>a. name a = aname) (activity_table db)")
  case None
  then show ?thesis by (simp add: signup_for_activity_def)
next
  case (Some activity)
  note act = this
  show ?thesis
  proof (cases "find (\<lambda>p. activity_name p = aname \<and> email p = mail) (participant_table db)")
    case (Some existing)
    with act show ?thesis by (simp add: signup_for_activity_def)
  next
    case None
    then have fresh: "\<forall>p\<in>set (participant_table db). \<not> (activity_name p = aname \<and> email p = mail)"
      by (simp add: find_None_iff)
    show ?thesis
    proof (cases "int (length (participants_of aname db)) \<ge> max_participants activity")
      case True
      with act None show ?thesis by (simp add: signup_for_activity_def)
    next
      case False
      with act None have "snd (signup_for_activity aname mail db) = session_add_participant mail aname db"
        by (simp add: signup_for_activity_def)
      moreover from act have "activity \<in> set (activity_table db) \<and> name activity = aname"
        by (auto dest: find_SomeD)
      ultimately show ?thesis using fresh False act by auto
    qed
  qed
qed

lemma unregister_result:
  "snd (unregister_from_activity aname mail db) = db \<or>
   (\<exists>participant. participant \<in> set (participant_table db) \<and>
      snd (unregister_from_activity aname mail db) = session_delete participant db)"
  by (auto simp: unregister_from_activity_def split: option.splits dest: find_SomeD)

lemma add_participant_inv:
  assumes inv: "store_inv db"
    and act: "activity \<in> set (activity_table db)" "name activity = aname"
    and fresh: "\<forall>p\<in>set (participant_table db). \<not> (activity_name p = aname \<and> email p = mail)"
    and room: "int (length (participants_of aname db)) < max_participants activity"
  shows "store_inv (session_add_participant mail aname db)"
proof -
  let ?db' = "session_add_participant mail aname db"
  let ?new = "\<lparr>participant_id = next_rowid (map participant_id (participant_table db)),
            email = mail, activity_name = aname\<rparr>"
  have tab: "participant_table ?db' = participant_table db @ [?new]"
    and acts: "activity_table ?db' = activity_table db"
    by (simp_all add: session_add_participant_def)
  have 1: "distinct (map name (activity_table ?db'))"
    using inv by (simp add: acts store_inv_def)
  have 2: "sorted_wrt (<) (map participant_id (participant_table ?db'))"
    using inv by (auto simp: tab store_inv_def sorted_wrt_append intro: next_rowid_fresh)
  have 3: "\<forall>p\<in>set (participant_table ?db'). activity_name p \<in> set (map name (activity_table ?db'))"
    using inv act by (auto simp: tab acts store_inv_def)
  have 4: "distinct (map (\<lambda>p. (activity_name p, email p)) (participant_table ?db'))"
    using inv fresh by (auto simp: tab store_inv_def)
  have 5: "\<forall>a\<in>set (activity_table ?db'). int (length (participants_of (name a) ?db')) \<le> max_participants a"
  proof
    fix a assume a: "a \<in> set (activity_table ?db')"
    then have a': "a \<in> set (activity_table db)" by (simp add: acts)
    with inv have old: "int (length (participants_of (name a) db)) \<le> max_participants a"
      by (simp add: store_inv_def)
    show "int (length (participants_of (name a) ?db')) \<le> max_participants a"
    proof (cases "name a = aname")
      case True
      from inv have "distinct (map name (activity_table db))" by (simp add: store_inv_def)
      with a' act True have "a = activity" by (auto simp: distinct_map inj_on_def)
      with room True show ?thesis by (simp add: participants_of_def tab)
    next
      case False
      with old show ?thesis by (simp add: participants_of_def tab)
    qed
  qed
  from 1 2 3 4 5 show ?thesis unfolding store_inv_def by blast
qed

lemma length_filter_filter_le: "length (filter P (filter Q xs)) \<le> length (filter P xs)"
  by (induction xs) auto

lemma delete_participant_inv:
  assumes inv: "store_inv db"
  shows "store_inv (session_delete participant db)"
proof -
  let ?db' = "session_delete participant db"
  let ?keep = "\<lambda>p. participant_id p \<noteq> participant_id participant"
  have tab: "participant_table ?db' = filter ?keep (participant_table db)"
    and acts: "activity_table ?db' = activity_table db"
    by (simp_all add: session_delete_def)
  have 1: "distinct (map name (activity_table ?db'))"
    using inv by (simp add: acts store_inv_def)
  have 2: "sorted_wrt (<) (map participant_id (participant_table ?db'))"
    using inv by (simp add: tab store_inv_def sorted_wrt_map sorted_wrt_filter)
  have 3: "\<forall>p\<in>set (participant_table ?db'). activity_name p \<in> set (map name (activity_table ?db'))"
    using inv by (auto simp: tab acts store_inv_def)
  have 4: "distinct (map (\<lambda>p. (activity_name p, email p)) (participant_table ?db'))"
    using inv by (simp add: tab store_inv_def distinct_map_filter)
  have 5: "\<forall>a\<in>set (activity_table ?db'). int (length (participants_of (name a) ?db')) \<le> max_participants a"
  proof
    fix a assume "a \<in> set (activity_table ?db')"
    with inv have old: "int (length (participants_of (name a) db)) \<le> max_participants a"
      by (simp add: acts store_inv_def)
    have "length (participants_of (name a) ?db') \<le> length (participants_of (name a) db)"
      unfolding participants_of_def tab by (rule length_filter_filter_le)
    with old show "int (length (participants_of (name a) ?db')) \<le> max_participants a" by simp
  qed
  from 1 2 3 4 5 show ?thesis unfolding store_inv_def by blast
qed

lemma empty_store_inv: "store_inv empty_db"
  by (simp add: store_inv_def empty_db_def)

lemma inv_no_activities: "store_inv db \<Longrightarrow> activity_table db = [] \<Longrightarrow> db = empty_db"
  by (cases db) (simp add: store_inv_def empty_db_def)

lemma seed_nonempty: "activity_table db \<noteq> [] \<Longrightarrow> seed_database db = (Inr (), db)"
  by (cases "activity_table db") (simp_all add: seed_database_def)

lemma step_inv: "store_inv db \<Longrightarrow> store_inv (step db op)"
proof (cases op)
  case Seed
  assume inv: "store_inv db"
  show ?thesis
  proof (cases "activity_table db = []")
    case True
    with inv have "db = empty_db" by (rule inv_no_activities)
    with Seed show ?thesis by (simp add: seeded_store_inv)
  next
    case False
    with Seed inv show ?thesis by (simp add: seed_nonempty)
  qed
next
  case (Signup aname mail)
  assume inv: "store_inv db"
  from signup_result[of aname mail db] show ?thesis
  proof
    assume "snd (signup_for_activity aname mail db) = db"
    with inv Signup show ?thesis by simp
  next
    assume "\<exists>activity. activity \<in> set (activity_table db) \<and> name activity = aname \<and>
      find (\<lambda>a. name a = aname) (activity_table db) = Some activity \<and>
      (\<forall>p\<in>set (participant_table db). \<not> (activity_name p = aname \<and> email p = mail)) \<and>
      int (length (participants_of aname db)) < max_participants activity \<and>
      snd (signup_for_activity aname mail db) = session_add_participant mail aname db"
    then obtain activity where a: "activity \<in> set (activity_table db)" "name activity = aname"
      and f: "\<forall>p\<in>set (participant_table db). \<not> (activity_name p = aname \<and> email p = mail)"
      and r: "int (length (participants_of aname db)) < max_participants activity"
      and e: "snd (signup_for_activity aname mail db) = session_add_participant mail aname db"
      by blast
    from inv a f r have "store_inv (session_add_participant mail aname db)"
      by (rule add_participant_inv)
    with e Signup show ?thesis by simp
  qed
next
  case (Unregister aname mail)
  assume inv: "store_inv db"
  from unregister_result[of aname mail db] inv Unregister show ?thesis
    by (auto intro: delete_participant_inv)
qed

lemma run_inv: "store_inv (run ops)"
proof (induction ops rule: rev_induct)
  case Nil
  show ?case by (simp add: run_def empty_store_inv)
next
  case (snoc op ops)
  then show ?case by (simp add: run_def step_inv)
qed

lemma run_seed: "run [Seed] = snd (seed_database empty_db)"
  by (simp add: run_def)

lemma run_snoc: "run (ops @ [op]) = step (run ops) op"
  by (simp add: run_def)

lemma distinct_map_filter_le1:
  "distinct (map f xs) \<Longrightarrow> length (filter (\<lambda>x. f x = k) xs) \<le> Suc 0"
proof (induction xs)
  case Nil
  show ?case by simp
next
  case (Cons x xs)
  show ?case
  proof (cases "f x = k")
    case True
    with Cons.prems have "k \<notin> f ` set xs" by simp
    then have "\<forall>y\<in>set xs. f y \<noteq> k" by blast
    then have "filter (\<lambda>x. f x = k) xs = []" by (simp add: filter_empty_conv)
    with True show ?thesis by simp
  next
    case False
    with Cons show ?thesis by simp
  qed
qed

lemma find_name_None: "aname \<notin> set (map name acts) \<Longrightarrow> find (\<lambda>a. name a = aname) acts = None"
  by (auto simp: find_None_iff)

lemma find_name_Some:
  "aname \<in> set (map name acts) \<Longrightarrow> \<exists>activity. find (\<lambda>a. name a = aname) acts = Some activity"
  by (cases "find (\<lambda>a. name a = aname) acts") (auto simp: find_None_iff)

lemma find_enrolled_Some:
  "\<exists>p\<in>set ps. activity_name p = aname \<and> email p = mail \<Longrightarrow>
   \<exists>q. find (\<lambda>p. activity_name p = aname \<and> email p = mail) ps = Some q"
  by (cases "find (\<lambda>p. activity_name p = aname \<and> email p = mail) ps") (auto simp: find_None_iff)

lemma find_enrolled_None:
  "\<not> (\<exists>p\<in>set ps. activity_name p = aname \<and> email p = mail) \<Longrightarrow>
   find (\<lambda>p. activity_name p = aname \<and> email p = mail) ps = None"
  by (auto simp: find_None_iff)

lemma filter_other_key_remove1:
  "distinct (map f xs) \<Longrightarrow> x \<in> set xs \<Longrightarrow> filter (\<lambda>y. f y \<noteq> f x) xs = remove1 x xs"
proof (induction xs)
  case Nil
  then show ?case by simp
next
  case (Cons y ys)
  show ?case
  proof (cases "y = x")
    case True
    from Cons.prems(1) True have "f x \<notin> f ` set ys" by simp
    then have "\<forall>y\<in>set ys. f y \<noteq> f x" by (metis imageI)
    then have "filter (\<lambda>y. f y \<noteq> f x) ys = ys" by (simp add: filter_id_conv)
    with True show ?thesis by simp
  next
    case False
    with Cons.prems(2) have x: "x \<in> set ys" by simp
    from Cons.prems(1) have "f y \<notin> f ` set ys" by simp
    with x have "f y \<noteq> f x" by (metis imageI)
    moreover from Cons.prems(1) have "distinct (map f ys)" by simp
    ultimately show ?thesis using Cons.IH x False by simp
  qed
qed

lemma filter_remove1_other: "\<not> P x \<Longrightarrow> filter P (remove1 x xs) = filter P xs"
  by (induction xs) auto

lemma unregister_success:
  assumes act: "aname \<in> set (map name (activity_table db))"
    and enr: "\<exists>p\<in>set (participant_table db). activity_name p = aname \<and> email p = mail"
    and keys: "distinct (map participant_id (participant_table db))"
  shows "\<exists>participant\<in>set (participant_table db).
           activity_name participant = aname \<and> email participant = mail \<and>
           unregister_from_activity aname mail db =
             (Inr (JObj [(''message'', JStr (''Unregistered '' @ mail @ '' from '' @ aname))]),
              db\<lparr>participant_table := remove1 participant (participant_table db)\<rparr>)"
proof -
  from act obtain activity where a: "find (\<lambda>a. name a = aname) (activity_table db) = Some activity"
    using find_name_Some by blast
  from enr obtain q where
    q: "find (\<lambda>p. activity_name p = aname \<and> email p = mail) (participant_table db) = Some q"
    using find_enrolled_Some by blast
  then have qin: "q \<in> set (participant_table db)" and qa: "activity_name q = aname"
    and qm: "email q = mail"
    by (auto dest: find_SomeD)
  from keys qin have
    "filter (\<lambda>p. participant_id p \<noteq> participant_id q) (participant_table db) =
     remove1 q (participant_table db)"
    by (rule filter_other_key_remove1)
  with a q have "unregister_from_activity aname mail db =
             (Inr (JObj [(''message'', JStr (''Unregistered '' @ mail @ '' from '' @ aname))]),
              db\<lparr>participant_table := remove1 q (participant_table db)\<rparr>)"
    by (simp add: unregister_from_activity_def session_delete_def)
  with qin qa qm show ?thesis by blast
qed

lemma signup_success:
  assumes ok: "\<not> isl (fst (signup_for_activity aname mail db))"
  shows "snd (signup_for_activity aname mail db) = session_add_participant mail aname db"
  using ok by (simp add: signup_for_activity_def Let_def split: option.splits if_splits)

lemma unregister_success_inv:
  assumes ok: "\<not> isl (fst (unregister_from_activity aname mail db))"
  shows "aname \<in> set (map name (activity_table db)) \<and>
     (\<exists>p\<in>set (participant_table db). activity_name p = aname \<and> email p = mail)"
proof -
  from ok obtain activity q where
    "find (\<lambda>a. name a = aname) (activity_table db) = Some activity"
    "find (\<lambda>p. activity_name p = aname \<and> email p = mail) (participant_table db) = Some q"
    by (auto simp: unregister_from_activity_def split: option.splits)
  then show ?thesis by (force dest: find_SomeD)
qed

lemmas seeded_eval = run_def seeded_activity_table seeded_participant_table
  signup_for_activity_def unregister_from_activity_def participants_of_def
  session_add_participant_def session_delete_def next_rowid_def

lemma fold_add_participant_activity_table:
  "activity_table (fold (\<lambda>mail. session_add_participant mail n) mails db) = activity_table db"
  by (induction mails arbitrary: db) (simp_all add: session_add_participant_def)

lemma seed_loop_names:
  "distinct (map seed_name ds) \<Longrightarrow>
   set (map seed_name ds) \<inter> set (map name (activity_table db)) = {} \<Longrightarrow>
   \<exists>db'. seed_loop ds db = Inr db' \<and>
     map name (activity_table db') = map name (activity_table db) @ map seed_name ds"
proof (induction ds arbitrary: db)
  case Nil
  then show ?case by simp
next
  case (Cons d ds)
  let ?db1 = "db\<lparr>activity_table := activity_table db @
             [\<lparr>activity_id = next_rowid (map activity_id (activity_table db)),
               name = seed_name d, description = seed_description d,
               schedule = seed_schedule d, max_participants = seed_max_participants d\<rparr>]\<rparr>"
  let ?db2 = "fold (\<lambda>mail. session_add_participant mail (seed_name d)) (seed_participants d) ?db1"
  from Cons.prems(2) have fresh: "seed_name d \<notin> set (map name (activity_table db))" by auto
  then have add: "session_add_activity (seed_name d) (seed_description d) (seed_schedule d)
             (seed_max_participants d) db = Inr ?db1"
    by (simp add: session_add_activity_def)
  have names2: "map name (activity_table ?db2) = map name (activity_table db) @ [seed_name d]"
    by (simp add: fold_add_participant_activity_table)
  from Cons.prems have "distinct (map seed_name ds)"
    and "set (map seed_name ds) \<inter> set (map name (activity_table ?db2)) = {}"
    unfolding names2 by auto
  then obtain db' where r: "seed_loop ds ?db2 = Inr db'"
    and n: "map name (activity_table db') = map name (activity_table ?db2) @ map seed_name ds"
    using Cons.IH by blast
  from add r have "seed_loop (d # ds) db = Inr db'" by simp
  moreover from n names2 have
    "map name (activity_table db') = map name (activity_table db) @ map seed_name (d # ds)"
    by simp
  ultimately show ?case by blast
qed

lemma seed_names_distinct: "distinct (map seed_name SEED_ACTIVITIES)"
  by (simp add: SEED_ACTIVITIES_def)

lemma seed_database_empty_table:
  assumes "activity_table db = []"
  shows "\<exists>db'. seed_database db = (Inr (), db') \<and> activity_table db' \<noteq> []"
proof -
  from assms seed_names_distinct obtain db' where r: "seed_loop SEED_ACTIVITIES db = Inr db'"
    and n: "map name (activity_table db') = map name (activity_table db) @ map seed_name SEED_ACTIVITIES"
    using seed_loop_names[of SEED_ACTIVITIES db] by auto
  from n assms have "activity_table db' \<noteq> []" by (auto simp: SEED_ACTIVITIES_def)
  moreover from r assms have "seed_database db = (Inr (), db')" by (simp add: seed_database_def)
  ultimately show ?thesis by blast
qed

lemma update_fresh: "k \<notin> fst ` set al \<Longrightarrow> AList.update k v al = al @ [(k, v)]"
  by (induction al) auto

lemma fold_update_distinct:
  "distinct (map fst acc @ map name acts) \<Longrightarrow>
   fold (\<lambda>activity result. AList.update (name activity) (g activity) result) acts acc =
     acc @ map (\<lambda>a. (name a, g a)) acts"
proof (induction acts arbitrary: acc)
  case Nil
  show ?case by simp
next
  case (Cons a acts)
  from Cons.prems have fresh: "name a \<notin> fst ` set acc" by auto
  then have u: "AList.update (name a) (g a) acc = acc @ [(name a, g a)]" by (rule update_fresh)
  from Cons.prems have "distinct (map fst (acc @ [(name a, g a)]) @ map name acts)" by auto
  then have "fold (\<lambda>activity result. AList.update (name activity) (g activity) result) acts
      (acc @ [(name a, g a)]) = (acc @ [(name a, g a)]) @ map (\<lambda>a. (name a, g a)) acts"
    by (rule Cons.IH)
  with u show ?case by simp
qed

lemma get_activities_distinct:
  assumes "distinct (map name (activity_table db))"
  shows "get_activities db =
    map (\<lambda>a. (name a, activity_to_dict a (map email (participants_of (name a) db))))
      (activity_table db)"
  unfolding get_activities_def using fold_update_distinct[of "[]" "activity_table db"] assms
  by simp

lemma map_of_by_name:
  "distinct (map name acts) \<Longrightarrow> a \<in> set acts \<Longrightarrow>
   map_of (map (\<lambda>a. (name a, g a)) acts) (name a) = Some (g a)"
  by (rule map_of_is_SomeI) (auto simp: comp_def)

lemma step_emails:
  assumes inv: "store_inv db" and ne: "\<forall>p\<in>set (participant_table db). email p \<noteq> []"
    and ok: "nonempty_signup_email op"
  shows "\<forall>p\<in>set (participant_table (step db op)). email p \<noteq> []"
proof (cases op)
  case Seed
  show ?thesis
  proof (cases "activity_table db = []")
    case True
    with inv have "db = empty_db" by (rule inv_no_activities)
    with Seed show ?thesis by (simp add: seeded_participant_table)
  next
    case False
    with Seed ne show ?thesis by (simp add: seed_nonempty)
  qed
next
  case (Signup aname mail)
  with ok have m: "mail \<noteq> []" by simp
  from signup_result[of aname mail db] show ?thesis
  proof
    assume "snd (signup_for_activity aname mail db) = db"
    with Signup ne show ?thesis by simp
  next
    assume "\<exists>activity. activity \<in> set (activity_table db) \<and> name activity = aname \<and>
      find (\<lambda>a. name a = aname) (activity_table db) = Some activity \<and>
      (\<forall>p\<in>set (participant_table db). \<not> (activity_name p = aname \<and> email p = mail)) \<and>
      int (length (participants_of aname db)) < max_participants activity \<and>
      snd (signup_for_activity aname mail db) = session_add_participant mail aname db"
    then have "snd (signup_for_activity aname mail db) = session_add_participant mail aname db"
      by blast
    with Signup ne m show ?thesis by (auto simp: session_add_participant_def)
  qed
next
  case (Unregister aname mail)
  from unregister_result[of aname mail db] Unregister ne show ?thesis
    by (auto simp: session_delete_def)
qed

section \<open>The claims\<close>

text \<open>
  C1. \<open>signup_for_activity\<close> checks in this order: an unknown activity name raises 404;
  otherwise an existing row for the activity and email raises 400 "already signed up";
  otherwise a participant count that is not below the activity's \<open>max_participants\<close>
  raises 400 "full"; otherwise one participant row is appended and the confirmation
  message returned. Every failure leaves the database as it was.
\<close>

theorem signup_preconditions_in_order:
  "(aname \<notin> set (map name (activity_table db)) \<longrightarrow>
      signup_for_activity aname mail db =
        (Inl (HTTPException 404 ''Activity not found''), db)) \<and>
   (aname \<in> set (map name (activity_table db)) \<and>
    (\<exists>p\<in>set (participant_table db). activity_name p = aname \<and> email p = mail) \<longrightarrow>
      signup_for_activity aname mail db =
        (Inl (HTTPException 400 ''Student is already signed up''), db)) \<and>
   (\<forall>activity.
      find (\<lambda>a. name a = aname) (activity_table db) = Some activity \<and>
      \<not> (\<exists>p\<in>set (participant_table db). activity_name p = aname \<and> email p = mail) \<and>
      \<not> int (length (participants_of aname db)) < max_participants activity \<longrightarrow>
      signup_for_activity aname mail db =
        (Inl (HTTPException 400 ''Activity is full''), db)) \<and>
   (\<forall>activity.
      find (\<lambda>a. name a = aname) (activity_table db) = Some activity \<and>
      \<not> (\<exists>p\<in>set (participant_table db). activity_name p = aname \<and> email p = mail) \<and>
      int (length (participants_of aname db)) < max_participants activity \<longrightarrow>
      signup_for_activity aname mail db =
        (Inr (JObj [(''message'', JStr (''Signed up '' @ mail @ '' for '' @ aname))]),
         db\<lparr>participant_table := participant_table db @
              [\<lparr>participant_id = next_rowid (map participant_id (participant_table db)),
                email = mail, activity_name = aname\<rparr>]\<rparr>))"
proof (intro conjI impI allI)
  assume "aname \<notin> set (map name (activity_table db))"
  then have "find (\<lambda>a. name a = aname) (activity_table db) = None" by (rule find_name_None)
  then show "signup_for_activity aname mail db =
        (Inl (HTTPException 404 ''Activity not found''), db)"
    by (simp add: signup_for_activity_def)
next
  assume h: "aname \<in> set (map name (activity_table db)) \<and>
    (\<exists>p\<in>set (participant_table db). activity_name p = aname \<and> email p = mail)"
  then obtain activity where "find (\<lambda>a. name a = aname) (activity_table db) = Some activity"
    using find_name_Some by blast
  moreover from h obtain q where
    "find (\<lambda>p. activity_name p = aname \<and> email p = mail) (participant_table db) = Some q"
    using find_enrolled_Some by blast
  ultimately show "signup_for_activity aname mail db =
        (Inl (HTTPException 400 ''Student is already signed up''), db)"
    by (simp add: signup_for_activity_def)
next
  fix activity
  assume h: "find (\<lambda>a. name a = aname) (activity_table db) = Some activity \<and>
      \<not> (\<exists>p\<in>set (participant_table db). activity_name p = aname \<and> email p = mail) \<and>
      \<not> int (length (participants_of aname db)) < max_participants activity"
  then have "find (\<lambda>p. activity_name p = aname \<and> email p = mail) (participant_table db) = None"
    using find_enrolled_None by blast
  with h show "signup_for_activity aname mail db =
        (Inl (HTTPException 400 ''Activity is full''), db)"
    by (simp add: signup_for_activity_def)
next
  fix activity
  assume h: "find (\<lambda>a. name a = aname) (activity_table db) = Some activity \<and>
      \<not> (\<exists>p\<in>set (participant_table db). activity_name p = aname \<and> email p = mail) \<and>
      int (length (participants_of aname db)) < max_participants activity"
  then have "find (\<lambda>p. activity_name p = aname \<and> email p = mail) (participant_table db) = None"
    using find_enrolled_None by blast
  with h show "signup_for_activity aname mail db =
        (Inr (JObj [(''message'', JStr (''Signed up '' @ mail @ '' for '' @ aname))]),
         db\<lparr>participant_table := participant_table db @
              [\<lparr>participant_id = next_rowid (map participant_id (participant_table db)),
                email = mail, activity_name = aname\<rparr>]\<rparr>)"
    by (simp add: signup_for_activity_def session_add_participant_def)
qed

text \<open>The four outcomes on the seeded catalog (the third once Math Club holds ten).\<close>

theorem signup_preconditions_in_order_witness:
  "signup_for_activity ''Unknown Club'' ''a@b.edu'' (run [Seed]) =
     (Inl (HTTPException 404 ''Activity not found''), run [Seed]) \<and>
   signup_for_activity ''Chess Club'' ''michael@mergington.edu'' (run [Seed]) =
     (Inl (HTTPException 400 ''Student is already signed up''), run [Seed]) \<and>
   signup_for_activity ''Math Club'' ''a9@e''
       (run (Seed # map (Signup ''Math Club'')
          [''a1@e'', ''a2@e'', ''a3@e'', ''a4@e'', ''a5@e'', ''a6@e'', ''a7@e'', ''a8@e''])) =
     (Inl (HTTPException 400 ''Activity is full''),
      run (Seed # map (Signup ''Math Club'')
          [''a1@e'', ''a2@e'', ''a3@e'', ''a4@e'', ''a5@e'', ''a6@e'', ''a7@e'', ''a8@e''])) \<and>
   signup_for_activity ''Chess Club'' ''new@mergington.edu'' (run [Seed]) =
     (Inr (JObj [(''message'', JStr ''Signed up new@mergington.edu for Chess Club'')]),
      (run [Seed])\<lparr>participant_table := participant_table (run [Seed]) @
         [\<lparr>participant_id = 19, email = ''new@mergington.edu'',
           activity_name = ''Chess Club''\<rparr>]\<rparr>)"
proof -
  let ?s = "run [Seed]"
  let ?full = "run (Seed # map (Signup ''Math Club'')
          [''a1@e'', ''a2@e'', ''a3@e'', ''a4@e'', ''a5@e'', ''a6@e'', ''a7@e'', ''a8@e''])"
  let ?chess = "\<lparr>activity_id = 1, name = ''Chess Club'',
      description = ''Learn strategies and compete in chess tournaments'',
      schedule = ''Fridays, 3:30 PM - 5:00 PM'', max_participants = 12\<rparr>"
  let ?math = "\<lparr>activity_id = 8, name = ''Math Club'',
      description = ''Solve challenging problems and participate in math competitions'',
      schedule = ''Tuesdays, 3:30 PM - 4:30 PM'', max_participants = 10\<rparr>"
  have a: "''Unknown Club'' \<notin> set (map name (activity_table ?s))"
    by (simp add: seeded_eval)
  have b: "''Chess Club'' \<in> set (map name (activity_table ?s)) \<and>
    (\<exists>p\<in>set (participant_table ?s).
       activity_name p = ''Chess Club'' \<and> email p = ''michael@mergington.edu'')"
    by (simp add: seeded_eval)
  have c: "find (\<lambda>a. name a = ''Math Club'') (activity_table ?full) = Some ?math \<and>
      \<not> (\<exists>p\<in>set (participant_table ?full).
            activity_name p = ''Math Club'' \<and> email p = ''a9@e'') \<and>
      \<not> int (length (participants_of ''Math Club'' ?full)) < max_participants ?math"
    by (simp add: seeded_eval)
  have d: "find (\<lambda>a. name a = ''Chess Club'') (activity_table ?s) = Some ?chess \<and>
      \<not> (\<exists>p\<in>set (participant_table ?s).
            activity_name p = ''Chess Club'' \<and> email p = ''new@mergington.edu'') \<and>
      int (length (participants_of ''Chess Club'' ?s)) < max_participants ?chess"
    by (simp add: seeded_eval)
  have n: "next_rowid (map participant_id (participant_table ?s)) = 19"
    by (simp add: seeded_eval)
  from a signup_preconditions_in_order[of "''Unknown Club''" ?s "''a@b.edu''"]
  have 1: "signup_for_activity ''Unknown Club'' ''a@b.edu'' ?s =
     (Inl (HTTPException 404 ''Activity not found''), ?s)" by blast
  from b signup_preconditions_in_order[of "''Chess Club''" ?s "''michael@mergington.edu''"]
  have 2: "signup_for_activity ''Chess Club'' ''michael@mergington.edu'' ?s =
     (Inl (HTTPException 400 ''Student is already signed up''), ?s)" by blast
  from c signup_preconditions_in_order[of "''Math Club''" ?full "''a9@e''"]
  have 3: "signup_for_activity ''Math Club'' ''a9@e'' ?full =
     (Inl (HTTPException 400 ''Activity is full''), ?full)" by blast
  from d signup_preconditions_in_order[of "''Chess Club''" ?s "''new@mergington.edu''"]
  have 4: "signup_for_activity ''Chess Club'' ''new@mergington.edu'' ?s =
     (Inr (JObj [(''message'',
        JStr (''Signed up '' @ ''new@mergington.edu'' @ '' for '' @ ''Chess Club''))]),
      ?s\<lparr>participant_table := participant_table ?s @
         [\<lparr>participant_id = next_rowid (map participant_id (participant_table ?s)),
           email = ''new@mergington.edu'', activity_name = ''Chess Club''\<rparr>]\<rparr>)" by blast
  from 1 2 3 4 show ?thesis unfolding n by simp
qed

text \<open>
  C2 (capacity invariant). In every state reached from the empty store by any sequence of
  seeding, signup and unregister calls, every activity of the table has at most
  \<open>max_participants\<close> participant rows carrying its name.
\<close>

theorem capacity_invariant:
  "\<forall>a\<in>set (activity_table (run ops)).
     int (length (participants_of (name a) (run ops))) \<le> max_participants a"
  using run_inv[of ops] by (simp add: store_inv_def)

text \<open>
  The invariant at work: after seeding and one signup the Chess Club has three of its
  twelve places taken.
\<close>

theorem capacity_invariant_witness:
  "\<lparr>activity_id = 1, name = ''Chess Club'',
      description = ''Learn strategies and compete in chess tournaments'',
      schedule = ''Fridays, 3:30 PM - 5:00 PM'', max_participants = 12\<rparr>
     \<in> set (activity_table (run [Seed, Signup ''Chess Club'' ''new@mergington.edu''])) \<and>
   length (participants_of ''Chess Club''
       (run [Seed, Signup ''Chess Club'' ''new@mergington.edu''])) = 3 \<and>
   int (length (participants_of ''Chess Club''
       (run [Seed, Signup ''Chess Club'' ''new@mergington.edu''])))  \<le> 12"
  using capacity_invariant[of "[Seed, Signup ''Chess Club'' ''new@mergington.edu'']"]
  by (simp add: run_def signup_for_activity_def participants_of_def session_add_participant_def
      seeded_activity_table seeded_participant_table)

text \<open>
  C3 (uniqueness invariant). In every state reached from the empty store by any sequence
  of seeding, signup and unregister calls, at most one participant row carries a given
  pair of activity name and email.
\<close>

theorem uniqueness_invariant:
  "length (filter (\<lambda>p. activity_name p = aname \<and> email p = mail)
     (participant_table (run ops))) \<le> 1"
proof -
  have "distinct (map (\<lambda>p. (activity_name p, email p)) (participant_table (run ops)))"
    using run_inv[of ops] by (simp add: store_inv_def)
  then have "length (filter (\<lambda>p. (activity_name p, email p) = (aname, mail))
     (participant_table (run ops))) \<le> Suc 0"
    by (rule distinct_map_filter_le1)
  then show ?thesis by simp
qed

text \<open>
  C4. \<open>unregister_from_activity\<close> raises 404 for an unknown activity name; otherwise
  400 "not signed up" when no row enrols the email in the activity; otherwise it deletes
  exactly that one row (primary keys being distinct) and returns the confirmation message.
\<close>

theorem unregister_checks:
  "(aname \<notin> set (map name (activity_table db)) \<longrightarrow>
      unregister_from_activity aname mail db =
        (Inl (HTTPException 404 ''Activity not found''), db)) \<and>
   (aname \<in> set (map name (activity_table db)) \<and>
    \<not> (\<exists>p\<in>set (participant_table db). activity_name p = aname \<and> email p = mail) \<longrightarrow>
      unregister_from_activity aname mail db =
        (Inl (HTTPException 400 ''Student is not signed up for this activity''), db)) \<and>
   (aname \<in> set (map name (activity_table db)) \<and>
    (\<exists>p\<in>set (participant_table db). activity_name p = aname \<and> email p = mail) \<and>
    distinct (map participant_id (participant_table db)) \<longrightarrow>
      (\<exists>participant\<in>set (participant_table db).
         activity_name participant = aname \<and> email participant = mail \<and>
         unregister_from_activity aname mail db =
           (Inr (JObj [(''message'', JStr (''Unregistered '' @ mail @ '' from '' @ aname))]),
            db\<lparr>participant_table := remove1 participant (participant_table db)\<rparr>)))"
proof (intro conjI impI)
  assume "aname \<notin> set (map name (activity_table db))"
  then have "find (\<lambda>a. name a = aname) (activity_table db) = None" by (rule find_name_None)
  then show "unregister_from_activity aname mail db =
        (Inl (HTTPException 404 ''Activity not found''), db)"
    by (simp add: unregister_from_activity_def)
next
  assume h: "aname \<in> set (map name (activity_table db)) \<and>
    \<not> (\<exists>p\<in>set (participant_table db). activity_name p = aname \<and> email p = mail)"
  then obtain activity where "find (\<lambda>a. name a = aname) (activity_table db) = Some activity"
    using find_name_Some by blast
  moreover from h have
    "find (\<lambda>p. activity_name p = aname \<and> email p = mail) (participant_table db) = None"
    using find_enrolled_None by blast
  ultimately show "unregister_from_activity aname mail db =
        (Inl (HTTPException 400 ''Student is not signed up for this activity''), db)"
    by (simp add: unregister_from_activity_def)
next
  assume "aname \<in> set (map name (activity_table db)) \<and>
    (\<exists>p\<in>set (participant_table db). activity_name p = aname \<and> email p = mail) \<and>
    distinct (map participant_id (participant_table db))"
  then show "\<exists>participant\<in>set (participant_table db).
         activity_name participant = aname \<and> email participant = mail \<and>
         unregister_from_activity aname mail db =
           (Inr (JObj [(''message'', JStr (''Unregistered '' @ mail @ '' from '' @ aname))]),
            db\<lparr>participant_table := remove1 participant (participant_table db)\<rparr>)"
    using unregister_success by blast
qed

text \<open>The three outcomes on the seeded catalog.\<close>

theorem unregister_checks_witness:
  "unregister_from_activity ''Unknown Club'' ''a@b.edu'' (run [Seed]) =
     (Inl (HTTPException 404 ''Activity not found''), run [Seed]) \<and>
   unregister_from_activity ''Chess Club'' ''never-signed-up@e.edu'' (run [Seed]) =
     (Inl (HTTPException 400 ''Student is not signed up for this activity''), run [Seed]) \<and>
   (\<exists>participant\<in>set (participant_table (run [Seed])).
      activity_name participant = ''Chess Club'' \<and>
      email participant = ''michael@mergington.edu'' \<and>
      unregister_from_activity ''Chess Club'' ''michael@mergington.edu'' (run [Seed]) =
        (Inr (JObj [(''message'',
            JStr ''Unregistered michael@mergington.edu from Chess Club'')]),
         (run [Seed])\<lparr>participant_table :=
            remove1 participant (participant_table (run [Seed]))\<rparr>))"
proof -
  let ?s = "run [Seed]"
  have a: "''Unknown Club'' \<notin> set (map name (activity_table ?s))"
    by (simp add: seeded_eval)
  have b: "''Chess Club'' \<in> set (map name (activity_table ?s)) \<and>
    \<not> (\<exists>p\<in>set (participant_table ?s).
       activity_name p = ''Chess Club'' \<and> email p = ''never-signed-up@e.edu'')"
    by (simp add: seeded_eval)
  have c: "''Chess Club'' \<in> set (map name (activity_table ?s)) \<and>
    (\<exists>p\<in>set (participant_table ?s).
       activity_name p = ''Chess Club'' \<and> email p = ''michael@mergington.edu'') \<and>
    distinct (map participant_id (participant_table ?s))"
    by (simp add: seeded_eval)
  from a unregister_checks[of "''Unknown Club''" ?s "''a@b.edu''"]
  have 1: "unregister_from_activity ''Unknown Club'' ''a@b.edu'' ?s =
     (Inl (HTTPException 404 ''Activity not found''), ?s)" by blast
  from b unregister_checks[of "''Chess Club''" ?s "''never-signed-up@e.edu''"]
  have 2: "unregister_from_activity ''Chess Club'' ''never-signed-up@e.edu'' ?s =
     (Inl (HTTPException 400 ''Student is not signed up for this activity''), ?s)" by blast
  from unregister_checks[of "''Chess Club''" ?s "''michael@mergington.edu''"]
  have "''Chess Club'' \<in> set (map name (activity_table ?s)) \<and>
    (\<exists>p\<in>set (participant_table ?s).
       activity_name p = ''Chess Club'' \<and> email p = ''michael@mergington.edu'') \<and>
    distinct (map participant_id (participant_table ?s)) \<longrightarrow>
    (\<exists>participant\<in>set (participant_table ?s).
      activity_name participant = ''Chess Club'' \<and>
      email participant = ''michael@mergington.edu'' \<and>
      unregister_from_activity ''Chess Club'' ''michael@mergington.edu'' ?s =
        (Inr (JObj [(''message'',
            JStr (''Unregistered '' @ ''michael@mergington.edu'' @ '' from '' @ ''Chess Club''))]),
         ?s\<lparr>participant_table := remove1 participant (participant_table ?s)\<rparr>))"
    by (elim conjE)
  with c have 3: "\<exists>participant\<in>set (participant_table ?s).
      activity_name participant = ''Chess Club'' \<and>
      email participant = ''michael@mergington.edu'' \<and>
      unregister_from_activity ''Chess Club'' ''michael@mergington.edu'' ?s =
        (Inr (JObj [(''message'',
            JStr (''Unregistered '' @ ''michael@mergington.edu'' @ '' from '' @ ''Chess Club''))]),
         ?s\<lparr>participant_table := remove1 participant (participant_table ?s)\<rparr>)"
    by (rule mp[rotated])
  have m: "''Unregistered '' @ ''michael@mergington.edu'' @ '' from '' @ ''Chess Club'' =
    ''Unregistered michael@mergington.edu from Chess Club''" by simp
  from 1 2 3 show ?thesis unfolding m by (intro conjI)
qed

text \<open>
  C5 (atomicity on failure). Whenever signup or unregister raises, the database after the
  call is the database before it.
\<close>

theorem failure_leaves_store_unchanged:
  "(isl (fst (signup_for_activity aname mail db)) \<longrightarrow>
      snd (signup_for_activity aname mail db) = db) \<and>
   (isl (fst (unregister_from_activity aname mail db)) \<longrightarrow>
      snd (unregister_from_activity aname mail db) = db)"
  by (simp add: signup_for_activity_def unregister_from_activity_def Let_def
      split: option.splits)

text \<open>A failed signup and a failed unregister on the seeded catalog.\<close>

theorem failure_leaves_store_unchanged_witness:
  "isl (fst (signup_for_activity ''Unknown Club'' ''a@b.edu'' (run [Seed]))) \<and>
   snd (signup_for_activity ''Unknown Club'' ''a@b.edu'' (run [Seed])) = run [Seed] \<and>
   isl (fst (unregister_from_activity ''Chess Club'' ''never-signed-up@e.edu'' (run [Seed]))) \<and>
   snd (unregister_from_activity ''Chess Club'' ''never-signed-up@e.edu'' (run [Seed])) =
     run [Seed]"
proof -
  let ?s = "run [Seed]"
  have a: "isl (fst (signup_for_activity ''Unknown Club'' ''a@b.edu'' ?s))"
    by (simp add: seeded_eval)
  have b: "isl (fst (unregister_from_activity ''Chess Club'' ''never-signed-up@e.edu'' ?s))"
    by (simp add: seeded_eval)
  from a failure_leaves_store_unchanged[of "''Unknown Club''" "''a@b.edu''" ?s]
  have 1: "snd (signup_for_activity ''Unknown Club'' ''a@b.edu'' ?s) = ?s" by blast
  from b failure_leaves_store_unchanged[of "''Chess Club''" "''never-signed-up@e.edu''" ?s]
  have 2: "snd (unregister_from_activity ''Chess Club'' ''never-signed-up@e.edu'' ?s) = ?s"
    by blast
  from a 1 b 2 show ?thesis by (intro conjI)
qed

text \<open>
  C10 (frame). A successful signup changes the store only by appending one row for the
  given activity and email; a successful unregister only by removing one such row. The
  activity table and the roster of every other activity are unchanged by both.
\<close>

theorem signup_unregister_frame:
  "(\<not> isl (fst (signup_for_activity aname mail db)) \<longrightarrow>
      activity_table (snd (signup_for_activity aname mail db)) = activity_table db \<and>
      (\<exists>new. email new = mail \<and> activity_name new = aname \<and>
         participant_table (snd (signup_for_activity aname mail db)) =
           participant_table db @ [new]) \<and>
      (\<forall>other. other \<noteq> aname \<longrightarrow>
         participants_of other (snd (signup_for_activity aname mail db)) =
           participants_of other db)) \<and>
   (\<not> isl (fst (unregister_from_activity aname mail db)) \<and>
    distinct (map participant_id (participant_table db)) \<longrightarrow>
      activity_table (snd (unregister_from_activity aname mail db)) = activity_table db \<and>
      (\<exists>old\<in>set (participant_table db). email old = mail \<and> activity_name old = aname \<and>
         participant_table (snd (unregister_from_activity aname mail db)) =
           remove1 old (participant_table db)) \<and>
      (\<forall>other. other \<noteq> aname \<longrightarrow>
         participants_of other (snd (unregister_from_activity aname mail db)) =
           participants_of other db))"
proof (intro conjI impI)
  assume ok: "\<not> isl (fst (signup_for_activity aname mail db))"
  then have s: "snd (signup_for_activity aname mail db) = session_add_participant mail aname db"
    by (rule signup_success)
  show "activity_table (snd (signup_for_activity aname mail db)) = activity_table db"
    by (rule signup_activity_table)
  show "\<exists>new. email new = mail \<and> activity_name new = aname \<and>
         participant_table (snd (signup_for_activity aname mail db)) =
           participant_table db @ [new]"
    unfolding s by (simp add: session_add_participant_def)
  show "\<forall>other. other \<noteq> aname \<longrightarrow>
         participants_of other (snd (signup_for_activity aname mail db)) =
           participants_of other db"
    unfolding s by (simp add: session_add_participant_def participants_of_def)
next
  assume h: "\<not> isl (fst (unregister_from_activity aname mail db)) \<and>
    distinct (map participant_id (participant_table db))"
  then have "aname \<in> set (map name (activity_table db)) \<and>
     (\<exists>p\<in>set (participant_table db). activity_name p = aname \<and> email p = mail)"
    using unregister_success_inv by blast
  with h obtain old where o: "old \<in> set (participant_table db)" "activity_name old = aname"
    "email old = mail"
    and u: "unregister_from_activity aname mail db =
           (Inr (JObj [(''message'', JStr (''Unregistered '' @ mail @ '' from '' @ aname))]),
            db\<lparr>participant_table := remove1 old (participant_table db)\<rparr>)"
    using unregister_success[of aname db mail] by blast
  show "activity_table (snd (unregister_from_activity aname mail db)) = activity_table db"
    by (rule unregister_activity_table)
  from o u show "\<exists>old\<in>set (participant_table db). email old = mail \<and> activity_name old = aname \<and>
         participant_table (snd (unregister_from_activity aname mail db)) =
           remove1 old (participant_table db)"
    by auto
  from o show "\<forall>other. other \<noteq> aname \<longrightarrow>
         participants_of other (snd (unregister_from_activity aname mail db)) =
           participants_of other db"
    unfolding u by (simp add: participants_of_def filter_remove1_other)
qed

text \<open>
  A signup and an unregister for the Chess Club leave the catalog and the Math Club roster
  as they were.
\<close>

theorem signup_unregister_frame_witness:
  "\<not> isl (fst (signup_for_activity ''Chess Club'' ''new@mergington.edu'' (run [Seed]))) \<and>
   activity_table (snd (signup_for_activity ''Chess Club'' ''new@mergington.edu'' (run [Seed])))
     = activity_table (run [Seed]) \<and>
   participants_of ''Math Club''
       (snd (signup_for_activity ''Chess Club'' ''new@mergington.edu'' (run [Seed])))
     = participants_of ''Math Club'' (run [Seed]) \<and>
   \<not> isl (fst (unregister_from_activity ''Chess Club'' ''michael@mergington.edu''
       (run [Seed]))) \<and>
   distinct (map participant_id (participant_table (run [Seed]))) \<and>
   activity_table (snd (unregister_from_activity ''Chess Club'' ''michael@mergington.edu''
       (run [Seed]))) = activity_table (run [Seed]) \<and>
   participants_of ''Math Club''
       (snd (unregister_from_activity ''Chess Club'' ''michael@mergington.edu'' (run [Seed])))
     = participants_of ''Math Club'' (run [Seed])"
proof -
  let ?s = "run [Seed]"
  have a: "\<not> isl (fst (signup_for_activity ''Chess Club'' ''new@mergington.edu'' ?s))"
    by (simp add: seeded_eval)
  have b1: "\<not> isl (fst (unregister_from_activity ''Chess Club'' ''michael@mergington.edu'' ?s))"
    by (simp add: seeded_eval)
  have b2: "distinct (map participant_id (participant_table ?s))"
    by (simp add: seeded_eval)
  from b1 b2 have b: "\<not> isl (fst (unregister_from_activity ''Chess Club''
      ''michael@mergington.edu'' ?s)) \<and> distinct (map participant_id (participant_table ?s))"
    by (rule conjI)
  have ne: "''Math Club'' \<noteq> ''Chess Club''" by simp
  note f1 = signup_unregister_frame[of "''Chess Club''" "''new@mergington.edu''" ?s,
      THEN conjunct1, THEN mp, OF a]
  note f2 = signup_unregister_frame[of "''Chess Club''" "''michael@mergington.edu''" ?s,
      THEN conjunct2, THEN mp, OF b]
  note 1 = f1[THEN conjunct1] and 2 = f1[THEN conjunct2, THEN conjunct2]
  note 3 = f2[THEN conjunct1] and 4 = f2[THEN conjunct2, THEN conjunct2]
  from 2[rule_format, OF ne] have 5: "participants_of ''Math Club''
       (snd (signup_for_activity ''Chess Club'' ''new@mergington.edu'' ?s))
     = participants_of ''Math Club'' ?s" by this
  from 4[rule_format, OF ne] have 6: "participants_of ''Math Club''
       (snd (unregister_from_activity ''Chess Club'' ''michael@mergington.edu'' ?s))
     = participants_of ''Math Club'' ?s" by this
  show ?thesis by (intro conjI) (rule a 1 5 b1 b2 3 6)+
qed

text \<open>
  C7 (idempotent seeding). From any database, \<open>seed_database\<close> returns without raising,
  and running it again on the database it leaves changes nothing: the second run yields the
  same activity table and the same participant table as the first. On a database that
  already holds an activity row, seeding is a no-op.
\<close>

theorem seeding_idempotent:
  "fst (seed_database db) = Inr () \<and>
   seed_database (snd (seed_database db)) = (Inr (), snd (seed_database db)) \<and>
   (activity_table db \<noteq> [] \<longrightarrow> seed_database db = (Inr (), db))"
proof (cases "activity_table db = []")
  case True
  then obtain db' where r: "seed_database db = (Inr (), db')" and n: "activity_table db' \<noteq> []"
    using seed_database_empty_table by blast
  from n have "seed_database db' = (Inr (), db')" by (rule seed_nonempty)
  with r True show ?thesis by simp
next
  case False
  then have "seed_database db = (Inr (), db)" by (rule seed_nonempty)
  then show ?thesis by simp
qed

text \<open>Seeding the seeded catalog again leaves it as it is.\<close>

theorem seeding_idempotent_witness:
  "activity_table (run [Seed]) \<noteq> [] \<and> seed_database (run [Seed]) = (Inr (), run [Seed]) \<and>
   run [Seed, Seed] = run [Seed]"
proof -
  have a: "activity_table (run [Seed]) \<noteq> []" by (simp add: run_def seeded_activity_table)
  note s = seeding_idempotent[of "run [Seed]", THEN conjunct2, THEN conjunct2, THEN mp, OF a]
  have "run [Seed, Seed] = snd (seed_database (run [Seed]))" by (simp add: run_def)
  with a s show ?thesis by simp
qed

text \<open>
  C8. In every state of a run, \<open>get_activities\<close> has exactly the activity names as keys;
  each activity is mapped to the four fields description, schedule, max_participants and
  participants; the participants are the emails of the activity's rows in ascending row-id
  order, which is the order of creation (a successful signup is listed last); and no
  participant list is longer than the activity's \<open>max_participants\<close>.
\<close>

theorem get_activities_listing:
  "map fst (get_activities (run ops)) = map name (activity_table (run ops)) \<and>
   (\<forall>a\<in>set (activity_table (run ops)).
      map_of (get_activities (run ops)) (name a) =
        Some (JObj [(''description'', JStr (description a)),
                    (''schedule'', JStr (schedule a)),
                    (''max_participants'', JInt (max_participants a)),
                    (''participants'',
                       JList (map JStr (map email (participants_of (name a) (run ops)))))]) \<and>
      sorted_wrt (<) (map participant_id (participants_of (name a) (run ops))) \<and>
      int (length (map email (participants_of (name a) (run ops)))) \<le> max_participants a) \<and>
   (\<not> isl (fst (signup_for_activity aname mail (run ops))) \<longrightarrow>
      map email (participants_of aname (run (ops @ [Signup aname mail]))) =
        map email (participants_of aname (run ops)) @ [mail])"
proof -
  let ?db = "run ops"
  have inv: "store_inv ?db" by (rule run_inv)
  then have d: "distinct (map name (activity_table ?db))" by (simp add: store_inv_def)
  then have g: "get_activities ?db =
    map (\<lambda>a. (name a, activity_to_dict a (map email (participants_of (name a) ?db))))
      (activity_table ?db)" by (rule get_activities_distinct)
  have keys: "map fst (get_activities ?db) = map name (activity_table ?db)"
    unfolding g by (simp add: comp_def)
  have vals: "\<forall>a\<in>set (activity_table ?db).
      map_of (get_activities ?db) (name a) =
        Some (JObj [(''description'', JStr (description a)),
                    (''schedule'', JStr (schedule a)),
                    (''max_participants'', JInt (max_participants a)),
                    (''participants'',
                       JList (map JStr (map email (participants_of (name a) ?db))))])"
    unfolding g using d by (simp add: map_of_by_name activity_to_dict_def)
  from inv have "sorted_wrt (<) (map participant_id (participant_table ?db))"
    by (simp add: store_inv_def)
  then have ord: "\<And>n. sorted_wrt (<) (map participant_id (participants_of n ?db))"
    by (simp add: participants_of_def sorted_wrt_map sorted_wrt_filter)
  from inv have cap: "\<forall>a\<in>set (activity_table ?db).
      int (length (map email (participants_of (name a) ?db))) \<le> max_participants a"
    by (simp add: store_inv_def)
  have app: "\<not> isl (fst (signup_for_activity aname mail ?db)) \<longrightarrow>
      map email (participants_of aname (run (ops @ [Signup aname mail]))) =
        map email (participants_of aname ?db) @ [mail]"
  proof
    assume "\<not> isl (fst (signup_for_activity aname mail ?db))"
    then have "snd (signup_for_activity aname mail ?db) = session_add_participant mail aname ?db"
      by (rule signup_success)
    then show "map email (participants_of aname (run (ops @ [Signup aname mail]))) =
        map email (participants_of aname ?db) @ [mail]"
      by (simp add: run_snoc participants_of_def session_add_participant_def)
  qed
  from keys vals ord cap have base: "map fst (get_activities ?db) = map name (activity_table ?db) \<and>
   (\<forall>a\<in>set (activity_table ?db).
      map_of (get_activities ?db) (name a) =
        Some (JObj [(''description'', JStr (description a)),
                    (''schedule'', JStr (schedule a)),
                    (''max_participants'', JInt (max_participants a)),
                    (''participants'',
                       JList (map JStr (map email (participants_of (name a) ?db))))]) \<and>
      sorted_wrt (<) (map participant_id (participants_of (name a) ?db)) \<and>
      int (length (map email (participants_of (name a) ?db))) \<le> max_participants a)"
    by blast
  show ?thesis
    by (rule conjI[OF base[THEN conjunct1] conjI[OF base[THEN conjunct2] app]])
qed

text \<open>The Chess Club entry after seeding and one signup.\<close>

theorem get_activities_listing_witness:
  "map_of (get_activities (run [Seed, Signup ''Chess Club'' ''new@mergington.edu'']))
       ''Chess Club'' =
     Some (JObj [(''description'', JStr ''Learn strategies and compete in chess tournaments''),
                 (''schedule'', JStr ''Fridays, 3:30 PM - 5:00 PM''),
                 (''max_participants'', JInt 12),
                 (''participants'',
                    JList [JStr ''michael@mergington.edu'', JStr ''daniel@mergington.edu'',
                           JStr ''new@mergington.edu''])]) \<and>
   \<not> isl (fst (signup_for_activity ''Chess Club'' ''new@mergington.edu'' (run [Seed]))) \<and>
   map email (participants_of ''Chess Club''
       (run ([Seed] @ [Signup ''Chess Club'' ''new@mergington.edu'']))) =
     map email (participants_of ''Chess Club'' (run [Seed])) @ [''new@mergington.edu'']"
proof -
  let ?ops = "[Seed, Signup ''Chess Club'' ''new@mergington.edu'']"
  let ?chess = "\<lparr>activity_id = 1, name = ''Chess Club'',
      description = ''Learn strategies and compete in chess tournaments'',
      schedule = ''Fridays, 3:30 PM - 5:00 PM'', max_participants = 12\<rparr>"
  have m: "?chess \<in> set (activity_table (run ?ops))" by (simp add: seeded_eval)
  have ps: "map email (participants_of ''Chess Club'' (run ?ops)) =
    [''michael@mergington.edu'', ''daniel@mergington.edu'', ''new@mergington.edu'']"
    by (simp add: seeded_eval)
  note l = get_activities_listing[of ?ops, THEN conjunct2, THEN conjunct1, THEN bspec, OF m,
      THEN conjunct1]
  have a: "\<not> isl (fst (signup_for_activity ''Chess Club'' ''new@mergington.edu'' (run [Seed])))"
    by (simp add: seeded_eval)
  note r = get_activities_listing[of "[Seed]" "''Chess Club''" "''new@mergington.edu''",
      THEN conjunct2, THEN conjunct2, THEN mp, OF a]
  from l have 1: "map_of (get_activities (run ?ops)) ''Chess Club'' =
     Some (JObj [(''description'', JStr ''Learn strategies and compete in chess tournaments''),
                 (''schedule'', JStr ''Fridays, 3:30 PM - 5:00 PM''),
                 (''max_participants'', JInt 12),
                 (''participants'',
                    JList [JStr ''michael@mergington.edu'', JStr ''daniel@mergington.edu'',
                           JStr ''new@mergington.edu''])])"
    by (simp add: ps)
  show ?thesis by (intro conjI) (rule 1 a r)+
qed

text \<open>
  C9, as the code has it: \<open>signup_for_activity\<close> stores the email it is given without
  validating it, so the empty string is enrolled like any other.
\<close>

theorem empty_email_signup_counterexample:
  "fst (signup_for_activity ''Chess Club'' '''' (run [Seed])) =
     Inr (JObj [(''message'', JStr ''Signed up  for Chess Club'')]) \<and>
   last (participant_table (snd (signup_for_activity ''Chess Club'' '''' (run [Seed])))) =
     \<lparr>participant_id = 19, email = '''', activity_name = ''Chess Club''\<rparr>"
  by (simp add: seeded_eval)

text \<open>
  C9, amended: every stored email is non-empty in every state reached by seeding,
  unregister and signups whose email argument is non-empty.
\<close>

theorem emails_nonempty_when_given_nonempty:
  "\<forall>op\<in>set ops. nonempty_signup_email op \<Longrightarrow>
   \<forall>p\<in>set (participant_table (run ops)). email p \<noteq> []"
proof (induction ops rule: rev_induct)
  case Nil
  show ?case by (simp add: run_def empty_db_def)
next
  case (snoc op ops)
  then have ih: "\<forall>p\<in>set (participant_table (run ops)). email p \<noteq> []"
    and ok: "nonempty_signup_email op" by simp_all
  have "store_inv (run ops)" by (rule run_inv)
  then have "\<forall>p\<in>set (participant_table (step (run ops) op)). email p \<noteq> []"
    using ih ok by (rule step_emails)
  then show ?case by (simp add: run_snoc)
qed

text \<open>The row created by a signup with a non-empty email.\<close>

theorem emails_nonempty_when_given_nonempty_witness:
  "nonempty_signup_email Seed \<and>
   nonempty_signup_email (Signup ''Chess Club'' ''new@mergington.edu'') \<and>
   \<lparr>participant_id = 19, email = ''new@mergington.edu'', activity_name = ''Chess Club''\<rparr>
     \<in> set (participant_table (run [Seed, Signup ''Chess Club'' ''new@mergington.edu''])) \<and>
   email \<lparr>participant_id = 19, email = ''new@mergington.edu'',
     activity_name = ''Chess Club''\<rparr> \<noteq> []"
proof -
  let ?ops = "[Seed, Signup ''Chess Club'' ''new@mergington.edu'']"
  let ?p = "\<lparr>participant_id = 19, email = ''new@mergington.edu'',
     activity_name = ''Chess Club''\<rparr>"
  have h1: "nonempty_signup_email Seed"
    and h2: "nonempty_signup_email (Signup ''Chess Club'' ''new@mergington.edu'')" by simp_all
  then have h: "\<forall>op\<in>set ?ops. nonempty_signup_email op" by simp
  have m: "?p \<in> set (participant_table (run ?ops))" by (simp add: seeded_eval)
  note c = emails_nonempty_when_given_nonempty[OF h, THEN bspec, OF m]
  show ?thesis by (intro conjI) (rule h1 h2 m c)+
qed

end
